theory Spec2Isabelle
  imports Complex_Main "HOL-Library.Word"
begin

section \<open>The shared store\<close>

text \<open>
  Both firmware sketches (SmartParking_Entrance.ino and SmartParking_SlotCamera.ino) talk
  to the Firebase Realtime Database through the FirebaseESP32 library, which is not part
  of the repository. The store is modelled as the leaf values found under each key path,
  the append-only lists filled by \<open>pushString\<close>, and the log of every write request the
  device has issued (the log is what "the device issues a write" refers to).

  On the ESP32 \<open>int\<close> is 32 bits wide and \<open>unsigned long\<close> (the type of \<open>millis()\<close>)
  is 32 bits wide: both are \<open>32 word\<close>, read with \<open>sint\<close> and \<open>unat\<close>.
\<close>

datatype fbval = FBool bool | FString string | FInt "32 word"

text \<open>
  \<open>logAccess\<close> pushes the text that \<open>serializeJson\<close> (ArduinoJson, external) makes of a
  small document; the pushed text is represented by the document itself.
\<close>

datatype jsonval = JString string | JInt "32 word"

datatype pushed = Text string | Serialized "(string \<times> jsonval) list"

datatype fbop =
    SetBool string bool
  | SetString string string
  | SetInt string "32 word"
  | PushString string pushed

record firebase =
  db :: "string \<Rightarrow> fbval option"
  lists :: "string \<Rightarrow> pushed list"
  requests :: "fbop list"

text \<open>
  Modelled from the spec: the FirebaseESP32 calls \<open>getString\<close>, \<open>getBool\<close>, \<open>getInt\<close>,
  \<open>setBool\<close>, \<open>setString\<close>, \<open>setInt\<close> and \<open>pushString\<close>, whose code is missing from
  the repository, follow section 6 of the specification: \<open>read(path) -> value | absent\<close>,
  \<open>write(path, value)\<close> overwrites (last write wins) and \<open>append(listPath, value)\<close>
  appends. A read returns \<open>None\<close> where the C++ call returns \<open>false\<close> (nothing of the
  requested type can be fetched from the path); \<open>Some v\<close> stands for \<open>true\<close> with \<open>v\<close>
  left in \<open>fbData\<close>. The sketches ignore the result of every write.
\<close>

definition getString :: "firebase \<Rightarrow> string \<Rightarrow> string option" where
  "getString fb path = (case db fb path of Some (FString s) \<Rightarrow> Some s | _ \<Rightarrow> None)"

definition getBool :: "firebase \<Rightarrow> string \<Rightarrow> bool option" where
  "getBool fb path = (case db fb path of Some (FBool b) \<Rightarrow> Some b | _ \<Rightarrow> None)"

definition getInt :: "firebase \<Rightarrow> string \<Rightarrow> 32 word option" where
  "getInt fb path = (case db fb path of Some (FInt n) \<Rightarrow> Some n | _ \<Rightarrow> None)"

definition setBool :: "string \<Rightarrow> bool \<Rightarrow> firebase \<Rightarrow> firebase" where
  "setBool path v fb =
     fb\<lparr>db := (db fb)(path \<mapsto> FBool v), requests := requests fb @ [SetBool path v]\<rparr>"

definition setString :: "string \<Rightarrow> string \<Rightarrow> firebase \<Rightarrow> firebase" where
  "setString path v fb =
     fb\<lparr>db := (db fb)(path \<mapsto> FString v), requests := requests fb @ [SetString path v]\<rparr>"

definition setInt :: "string \<Rightarrow> 32 word \<Rightarrow> firebase \<Rightarrow> firebase" where
  "setInt path v fb =
     fb\<lparr>db := (db fb)(path \<mapsto> FInt v), requests := requests fb @ [SetInt path v]\<rparr>"

definition pushString :: "string \<Rightarrow> pushed \<Rightarrow> firebase \<Rightarrow> firebase" where
  "pushString path v fb =
     fb\<lparr>lists := (lists fb)(path := lists fb path @ [v]),
        requests := requests fb @ [PushString path v]\<rparr>"

section \<open>Arduino strings\<close>

text \<open>\<open>String(n)\<close> renders a number in decimal.\<close>

definition digit :: "nat \<Rightarrow> char" where
  "digit d = ''0123456789'' ! d"

fun decimal :: "nat \<Rightarrow> string" where
  "decimal n = (if n < 10 then [digit n] else decimal (n div 10) @ [digit (n mod 10)])"

declare decimal.simps [simp del]

definition String_int :: "int \<Rightarrow> string" where
  "String_int i = (if i < 0 then CHR ''-'' # decimal (nat (- i)) else decimal (nat i))"

definition String_ulong :: "32 word \<Rightarrow> string" where
  "String_ulong w = decimal (unat w)"

text \<open>\<open>(int)(millis() / 1000)\<close>: the quotient is below \<open>2^31\<close>, so the cast keeps it.\<close>

definition seconds :: "32 word \<Rightarrow> 32 word" where
  "seconds millis = millis div 1000"

section \<open>Entrance camera: the Allocator\<close>

definition slotPath :: "int \<Rightarrow> string" where
  "slotPath i = ''parking_spots/slot_'' @ String_int i"

text \<open>
  \<open>for (int i = 0; i <= 10; i++)\<close>, entered at \<open>i\<close>. Every path through the body
  that does not return falls through to the next iteration; \<open>-1\<close> when the range is
  used up.
\<close>

function findAvailableSlot_from :: "firebase \<Rightarrow> string \<Rightarrow> int \<Rightarrow> int" where
  "findAvailableSlot_from fb vehicleType i =
     (if i \<le> 10 then
        (let path = slotPath i in
         case getString fb (path @ ''/type'') of
           Some slotType \<Rightarrow>
             if slotType = vehicleType then
               (case getBool fb (path @ ''/occupied'') of
                  Some occupied \<Rightarrow>
                    if \<not> occupied then i
                    else findAvailableSlot_from fb vehicleType (i + 1)
                | None \<Rightarrow> findAvailableSlot_from fb vehicleType (i + 1))
             else findAvailableSlot_from fb vehicleType (i + 1)
         | None \<Rightarrow> findAvailableSlot_from fb vehicleType (i + 1))
      else - 1)"
  by pat_completeness auto
termination
  by (relation "measure (\<lambda>(fb, vehicleType, i). nat (11 - i))") auto

declare findAvailableSlot_from.simps [simp del]

definition findAvailableSlot :: "firebase \<Rightarrow> string \<Rightarrow> int" where
  "findAvailableSlot fb vehicleType = findAvailableSlot_from fb vehicleType 0"

text \<open>The four writes of \<open>assignSlot\<close>, in the order of the source.\<close>

definition assignSlot :: "32 word \<Rightarrow> int \<Rightarrow> string \<Rightarrow> string \<Rightarrow> firebase \<Rightarrow> firebase" where
  "assignSlot millis slotId vehicleType licensePlate fb =
     (let path = slotPath slotId;
          fb = setBool (path @ ''/occupied'') True fb;
          fb = setString (path @ ''/vehicle_type'') vehicleType fb;
          fb = setString (path @ ''/license_plate'') licensePlate fb;
          fb = setInt (path @ ''/entry_time'') (seconds millis) fb
      in fb)"

text \<open>
  \<open>current + 1\<close> is an \<open>int\<close> addition; on the 32-bit word it wraps where the C++
  addition overflows.
\<close>

definition incrementCheckinCount :: "string \<Rightarrow> firebase \<Rightarrow> firebase" where
  "incrementCheckinCount vehicleType fb =
     (let path = ''checkin_count/'' @ vehicleType in
      case getInt fb path of
        Some current \<Rightarrow> setInt path (current + 1) fb
      | None \<Rightarrow> fb)"

definition logAccess ::
  "32 word \<Rightarrow> string \<Rightarrow> string \<Rightarrow> string \<Rightarrow> int \<Rightarrow> firebase \<Rightarrow> firebase" where
  "logAccess millis action vehicleType plate slotId fb =
     (let logDoc = [(''action'', JString action),
                    (''type'', JString vehicleType),
                    (''plate'', JString plate),
                    (''slot'', JInt (word_of_int slotId)),
                    (''timestamp'', JInt (seconds millis))]
      in pushString ''logs/access'' (Serialized logDoc) fb)"

text \<open>The alert text holds an em dash, three bytes in UTF-8.\<close>

definition emdash :: string where
  "emdash = [CHR 0xE2, CHR 0x80, CHR 0x94]"

definition processVehicleCheckIn ::
  "32 word \<Rightarrow> string \<Rightarrow> string \<Rightarrow> firebase \<Rightarrow> firebase" where
  "processVehicleCheckIn millis vehicleType licensePlate fb =
     (let slotId = findAvailableSlot fb vehicleType in
      if slotId \<ge> 0 then
        (let fb = assignSlot millis slotId vehicleType licensePlate fb;
             fb = incrementCheckinCount vehicleType fb;
             fb = logAccess millis ''CHECK_IN'' vehicleType licensePlate slotId fb
         in fb)
      else
        (let alert = vehicleType @ '' parking full '' @ emdash @ '' '' @ String_ulong millis
         in pushString ''alerts/full_capacity'' (Text alert) fb))"

section \<open>Entrance camera: the Detection Interpreter\<close>

text \<open>
  The classifier and the JSON library are external. What they hand to the sketch is one of:
  an empty string (\<open>sendToRoboflow\<close> got no HTTP 200), a text that \<open>deserializeJson\<close>
  rejects, or a document whose \<open>predictions\<close> array is read entry by entry with
  \<open>pred["class"].as<String>()\<close> and \<open>pred["confidence"].as<float>()\<close>. A confidence is
  a finite \<open>float\<close>; comparisons of finite floats (and of a float with a \<open>double\<close>
  constant) are exact, so confidences are modelled by their value as a real number. No
  \<open>float\<close> lies between 0.55 and the \<open>double\<close> nearest to it, so comparing a
  \<open>float\<close> with the constant \<open>0.55\<close> of the source is comparing its value with
  55/100.
\<close>

record prediction =
  pred_class :: string
  pred_confidence :: real

datatype response = Empty | Malformed | Json "prediction list"

definition CONFIDENCE_THRESHOLD_entrance :: real where
  "CONFIDENCE_THRESHOLD_entrance = 55 / 100"

definition DETECTION_COOLDOWN_MS :: "32 word" where
  "DETECTION_COOLDOWN_MS = 5000"

definition HEARTBEAT_INTERVAL :: "32 word" where
  "HEARTBEAT_INTERVAL = 30000"

definition CAMERA_ID_entrance :: string where
  "CAMERA_ID_entrance = ''entrance''"

text \<open>
  The \<open>for\<close> loop of \<open>parseRoboflowResponse\<close> over the predictions. The three reference
  parameters \<open>vehicleType\<close>, \<open>licensePlate\<close> and \<open>confidence\<close> are passed in and returned.
\<close>

fun parsePredictions ::
  "prediction list \<Rightarrow> string \<times> string \<times> real \<Rightarrow> string \<times> string \<times> real" where
  "parsePredictions [] (vehicleType, licensePlate, confidence) =
     (vehicleType, licensePlate, confidence)"
| "parsePredictions (pred # predictions) (vehicleType, licensePlate, confidence) =
     (let cls = pred_class pred;
          conf = pred_confidence pred;
          (vehicleType, confidence) =
            (if (cls = ''car'' \<or> cls = ''motorcycle'' \<or> cls = ''truck'') \<and> conf > confidence
             then (cls, conf) else (vehicleType, confidence));
          licensePlate =
            (if cls = ''license_plate'' \<and> conf > 0.5
             then ''PLATE_DETECTED'' else licensePlate)
      in parsePredictions predictions (vehicleType, licensePlate, confidence))"

fun parseRoboflowResponse ::
  "response \<Rightarrow> string \<times> string \<times> real \<Rightarrow> string \<times> string \<times> real" where
  "parseRoboflowResponse (Json predictions) out = parsePredictions predictions out"
| "parseRoboflowResponse _ out = out"

text \<open>
  Lines 131 to 138 of \<open>loop\<close>: the three locals start at \<open>""\<close>, \<open>""\<close> and \<open>0.0\<close>, the
  response is parsed into them, and the detection goes on to the check-in only if the
  vehicle type is not empty and the best confidence reaches the threshold. The result is
  the detection handed to \<open>processVehicleCheckIn\<close>, or \<open>None\<close> for "No vehicle detected".
\<close>

definition detection :: "response \<Rightarrow> (string \<times> string \<times> real) option" where
  "detection jsonResponse =
     (let (vehicleType, licensePlate, bestConfidence) =
            parseRoboflowResponse jsonResponse ('''', '''', 0)
      in if vehicleType \<noteq> '''' \<and> bestConfidence \<ge> CONFIDENCE_THRESHOLD_entrance
         then Some (vehicleType, licensePlate, bestConfidence) else None)"

definition sendHeartbeat :: "32 word \<Rightarrow> firebase \<Rightarrow> firebase" where
  "sendHeartbeat millis fb =
     (let basePath = ''cameras/'' @ CAMERA_ID_entrance;
          fb = setString (basePath @ ''/status'') ''online'' fb;
          fb = setInt (basePath @ ''/last_heartbeat'') (seconds millis) fb
      in fb)"

record entrance_state =
  lastDetectionTime :: "32 word"
  lastHeartbeatTime :: "32 word"

text \<open>
  One pass of the entrance sketch's \<open>loop\<close>. \<open>millis\<close> is the clock of this pass (every
  \<open>millis()\<close> call of the pass reads it) and \<open>capture\<close> is what the camera and the
  classifier give: \<open>None\<close> when \<open>captureImage\<close> returns no frame, otherwise the response
  to the frame.
\<close>

definition loop_entrance ::
  "32 word \<Rightarrow> response option \<Rightarrow> entrance_state \<times> firebase \<Rightarrow> entrance_state \<times> firebase" where
  "loop_entrance millis capture = (\<lambda>(s, fb).
     let (s, fb) =
           (if millis - lastHeartbeatTime s > HEARTBEAT_INTERVAL
            then (s\<lparr>lastHeartbeatTime := millis\<rparr>, sendHeartbeat millis fb)
            else (s, fb))
     in if millis - lastDetectionTime s < DETECTION_COOLDOWN_MS then (s, fb)
        else
          (case capture of
             None \<Rightarrow> (s, fb)
           | Some jsonResponse \<Rightarrow>
               if jsonResponse = Empty then (s, fb)
               else
                 (case detection jsonResponse of
                    Some (vehicleType, licensePlate, bestConfidence) \<Rightarrow>
                      (s\<lparr>lastDetectionTime := millis\<rparr>,
                       processVehicleCheckIn millis vehicleType licensePlate fb)
                  | None \<Rightarrow> (s, fb))))"

section \<open>Slot camera: the Occupancy Tracker\<close>

definition SLOT_ID :: int where
  "SLOT_ID = 0"

definition CAMERA_ID_slot :: string where
  "CAMERA_ID_slot = ''slot_cam_0''"

definition CHECK_INTERVAL_MS :: "32 word" where
  "CHECK_INTERVAL_MS = 15000"

definition CONFIDENCE_THRESHOLD_slot :: real where
  "CONFIDENCE_THRESHOLD_slot = 50 / 100"

text \<open>The \<open>for\<close> loop of \<open>detectVehiclePresence\<close>: the first hit returns true.\<close>

fun presentIn :: "prediction list \<Rightarrow> bool" where
  "presentIn [] = False"
| "presentIn (pred # predictions) =
     (let cls = pred_class pred;
          conf = pred_confidence pred
      in if (cls = ''car'' \<or> cls = ''motorcycle'' \<or> cls = ''truck'')
            \<and> conf \<ge> CONFIDENCE_THRESHOLD_slot
         then True else presentIn predictions)"

fun detectVehiclePresence :: "response \<Rightarrow> bool" where
  "detectVehiclePresence (Json predictions) = presentIn predictions"
| "detectVehiclePresence _ = False"

definition updateSlotOccupancy :: "32 word \<Rightarrow> bool \<Rightarrow> firebase \<Rightarrow> firebase" where
  "updateSlotOccupancy millis occupied fb =
     (let path = slotPath SLOT_ID;
          fb = setBool (path @ ''/occupied'') occupied fb
      in if occupied then
           setInt (path @ ''/entry_time'') (seconds millis) fb
         else
           (let fb = setString (path @ ''/vehicle_type'') '''' fb;
                fb = setString (path @ ''/license_plate'') '''' fb;
                fb = setInt (path @ ''/entry_time'') 0 fb
            in fb))"

text \<open>
  \<open>initFirebase\<close> of the slot camera registers the camera; \<open>ip\<close> is the text of
  \<open>WiFi.localIP()\<close>.
\<close>

definition initFirebase_slot :: "string \<Rightarrow> firebase \<Rightarrow> firebase" where
  "initFirebase_slot ip fb =
     (let basePath = ''cameras/'' @ CAMERA_ID_slot;
          fb = setString (basePath @ ''/status'') ''online'' fb;
          fb = setString (basePath @ ''/ip_address'') ip fb;
          fb = setString (basePath @ ''/stream_url'') (''http://'' @ ip @ '':81/stream'') fb
      in fb)"

record slot_state =
  previousOccupied :: bool
  lastCheckTime :: "32 word"
  lastHeartbeat :: "32 word"

text \<open>The globals of the slot sketch as they are initialised.\<close>

definition slot_globals :: slot_state where
  "slot_globals = \<lparr>previousOccupied = False, lastCheckTime = 0, lastHeartbeat = 0\<rparr>"

text \<open>
  \<open>setup\<close> of the slot camera, after the camera and the network are up: it registers the
  camera and loads the slot's \<open>occupied\<close> value if the read succeeds.
\<close>

definition setup_slot :: "string \<Rightarrow> firebase \<Rightarrow> slot_state \<times> firebase" where
  "setup_slot ip fb =
     (let fb = initFirebase_slot ip fb;
          path = slotPath SLOT_ID @ ''/occupied''
      in case getBool fb path of
           Some b \<Rightarrow> (slot_globals\<lparr>previousOccupied := b\<rparr>, fb)
         | None \<Rightarrow> (slot_globals, fb))"

text \<open>
  One pass of the slot sketch's \<open>loop\<close>, with the clock and the capture as for the
  entrance sketch.
\<close>

definition loop_slot ::
  "32 word \<Rightarrow> response option \<Rightarrow> slot_state \<times> firebase \<Rightarrow> slot_state \<times> firebase" where
  "loop_slot millis capture = (\<lambda>(s, fb).
     let (s, fb) =
           (if millis - lastHeartbeat s > 30000
            then (s\<lparr>lastHeartbeat := millis\<rparr>,
                  setInt (''cameras/'' @ CAMERA_ID_slot @ ''/last_heartbeat'') (seconds millis)
                    (setString (''cameras/'' @ CAMERA_ID_slot @ ''/status'') ''online'' fb))
            else (s, fb))
     in if millis - lastCheckTime s < CHECK_INTERVAL_MS then (s, fb)
        else
          (let s = s\<lparr>lastCheckTime := millis\<rparr> in
           case capture of
             None \<Rightarrow> (s, fb)
           | Some response \<Rightarrow>
               if response = Empty then (s, fb)
               else
                 (let nowOccupied = detectVehiclePresence response in
                  if nowOccupied \<noteq> previousOccupied s
                  then (s\<lparr>previousOccupied := nowOccupied\<rparr>,
                        updateSlotOccupancy millis nowOccupied fb)
                  else (s, fb))))"

text \<open>The sketch runs \<open>loop\<close> again and again: one pass per pair of clock and capture.\<close>

fun run_slot ::
  "(32 word \<times> response option) list \<Rightarrow> slot_state \<times> firebase \<Rightarrow> slot_state \<times> firebase" where
  "run_slot [] sf = sf"
| "run_slot ((millis, capture) # passes) sf = run_slot passes (loop_slot millis capture sf)"

section \<open>Notions used to state the properties\<close>

text \<open>A store holding the given leaf values, with empty lists and no request issued.\<close>

definition store_of :: "(string \<times> fbval) list \<Rightarrow> firebase" where
  "store_of leaves = \<lparr>db = map_of leaves, lists = (\<lambda>path. []), requests = []\<rparr>"

text \<open>The path a write request addresses, and whether it lies in the slot ledger.\<close>

fun op_path :: "fbop \<Rightarrow> string" where
  "op_path (SetBool path v) = path"
| "op_path (SetString path v) = path"
| "op_path (SetInt path v) = path"
| "op_path (PushString path v) = path"

definition ledger_write :: "fbop \<Rightarrow> bool" where
  "ledger_write w \<longleftrightarrow> take 14 (op_path w) = ''parking_spots/''"

text \<open>The requests issued between an earlier and a later state of the store.\<close>

definition issued :: "firebase \<Rightarrow> firebase \<Rightarrow> fbop list" where
  "issued before after = drop (length (requests before)) (requests after)"

text \<open>
  The presence a pass of the slot camera's \<open>loop\<close> decides: none while the check interval
  has not elapsed, when no frame is captured or when the response is empty; otherwise the
  result of \<open>detectVehiclePresence\<close>.
\<close>

definition decided :: "32 word \<Rightarrow> response option \<Rightarrow> slot_state \<Rightarrow> bool option" where
  "decided millis capture s =
     (if millis - lastCheckTime s < CHECK_INTERVAL_MS then None
      else case capture of
         None \<Rightarrow> None
       | Some r \<Rightarrow> if r = Empty then None else Some (detectVehiclePresence r))"

text \<open>A run of passes none of which decides a presence other than \<open>previousOccupied\<close>.\<close>

fun steady ::
  "(32 word \<times> response option) list \<Rightarrow> slot_state \<times> firebase \<Rightarrow> bool" where
  "steady [] sf = True"
| "steady ((millis, capture) # passes) (s, fb) =
     (decided millis capture s \<noteq> Some (\<not> previousOccupied s)
      \<and> steady passes (loop_slot millis capture (s, fb)))"

definition vehicle_candidate :: "prediction \<Rightarrow> bool" where
  "vehicle_candidate pred \<longleftrightarrow>
     pred_class pred = ''car'' \<or> pred_class pred = ''motorcycle'' \<or> pred_class pred = ''truck''"

text \<open>
  What the specification calls a free slot of the matching type: the read of the slot's
  \<open>type\<close> gives the vehicle type and the read of its \<open>occupied\<close> field gives false.
\<close>

definition slotAvailable :: "firebase \<Rightarrow> string \<Rightarrow> int \<Rightarrow> bool" where
  "slotAvailable fb vehicleType i \<longleftrightarrow>
     getString fb (slotPath i @ ''/type'') = Some vehicleType \<and>
     getBool fb (slotPath i @ ''/occupied'') = Some False"

text \<open>
  Example inputs of the slot camera: the globals while the slot is held occupied, and a
  response with one confident car.
\<close>

definition tracking_occupied :: slot_state where
  "tracking_occupied = \<lparr>previousOccupied = True, lastCheckTime = 0, lastHeartbeat = 0\<rparr>"

definition car_seen :: response where
  "car_seen = Json [\<lparr>pred_class = ''car'', pred_confidence = 9 / 10\<rparr>]"

text \<open>Example ledgers. Six slots, of which the car slots 2 and 5 are free.\<close>

definition ledger_two_free :: firebase where
  "ledger_two_free = store_of
     [(''parking_spots/slot_0/type'', FString ''car''),
      (''parking_spots/slot_0/occupied'', FBool True),
      (''parking_spots/slot_1/type'', FString ''motorcycle''),
      (''parking_spots/slot_1/occupied'', FBool False),
      (''parking_spots/slot_2/type'', FString ''car''),
      (''parking_spots/slot_2/occupied'', FBool False),
      (''parking_spots/slot_3/type'', FString ''car''),
      (''parking_spots/slot_3/occupied'', FBool True),
      (''parking_spots/slot_4/type'', FString ''truck''),
      (''parking_spots/slot_4/occupied'', FBool False),
      (''parking_spots/slot_5/type'', FString ''car''),
      (''parking_spots/slot_5/occupied'', FBool False)]"

text \<open>Every car slot is taken; a motorcycle slot is free.\<close>

definition ledger_cars_full :: firebase where
  "ledger_cars_full = store_of
     [(''parking_spots/slot_0/type'', FString ''car''),
      (''parking_spots/slot_0/occupied'', FBool True),
      (''parking_spots/slot_1/type'', FString ''car''),
      (''parking_spots/slot_1/occupied'', FBool True),
      (''parking_spots/slot_2/type'', FString ''motorcycle''),
      (''parking_spots/slot_2/occupied'', FBool False),
      (''checkin_count/car'', FInt 2)]"

text \<open>
  The \<open>occupied\<close> field of car slot 0 cannot be read (no value is stored there); car
  slot 1 is free.
\<close>

definition ledger_unreadable :: firebase where
  "ledger_unreadable = store_of
     [(''parking_spots/slot_0/type'', FString ''car''),
      (''parking_spots/slot_1/type'', FString ''car''),
      (''parking_spots/slot_1/occupied'', FBool False),
      (''checkin_count/car'', FInt 0)]"

text \<open>
  The \<open>occupied\<close> field of car slot 0 cannot be read and the only other car slot is
  taken.
\<close>

definition ledger_unreadable_full :: firebase where
  "ledger_unreadable_full = store_of
     [(''parking_spots/slot_0/type'', FString ''car''),
      (''parking_spots/slot_1/type'', FString ''car''),
      (''parking_spots/slot_1/occupied'', FBool True),
      (''checkin_count/car'', FInt 1)]"

section \<open>Evaluation on concrete stores\<close>

lemma scan_range: "{0..10::int} = {0, 1, 2, 3, 4, 5, 6, 7, 8, 9, 10}"
  by auto arith

lemmas eval_path = slotPath_def String_int_def decimal.simps digit_def

lemmas eval_read = getString_def getBool_def getInt_def store_of_def

section \<open>Properties of the Allocator's scan\<close>

lemma findAvailableSlot_from_unfold:
  "findAvailableSlot_from fb vt i =
     (if i \<le> 10 then
        (if slotAvailable fb vt i then i else findAvailableSlot_from fb vt (i + 1))
      else - 1)"
  by (subst findAvailableSlot_from.simps)
     (auto simp: slotAvailable_def Let_def split: option.splits)

lemma findAvailableSlot_from_first:
  "i \<le> j \<Longrightarrow> j \<le> 10 \<Longrightarrow> slotAvailable fb vt j \<Longrightarrow>
   i \<le> findAvailableSlot_from fb vt i \<and> findAvailableSlot_from fb vt i \<le> j
   \<and> slotAvailable fb vt (findAvailableSlot_from fb vt i)
   \<and> (\<forall>k. i \<le> k \<and> k < findAvailableSlot_from fb vt i \<longrightarrow> \<not> slotAvailable fb vt k)"
proof (induction "nat (11 - i)" arbitrary: i)
  case 0
  then show ?case by simp
next
  case (Suc n)
  then have inrange: "i \<le> 10" and smaller: "n = nat (11 - (i + 1))"
    by auto
  show ?case
  proof (cases "slotAvailable fb vt i")
    case True
    have "findAvailableSlot_from fb vt i = i"
      using inrange True by (subst findAvailableSlot_from_unfold) simp
    with Suc.prems True show ?thesis by auto
  next
    case False
    have unfold: "findAvailableSlot_from fb vt i = findAvailableSlot_from fb vt (i + 1)"
      using inrange False by (subst findAvailableSlot_from_unfold) simp
    from False Suc.prems have next_le: "i + 1 \<le> j"
      by (cases "j = i") auto
    have step: "k = i \<or> i + 1 \<le> k" if "i \<le> k" for k :: int
      using that by arith
    from Suc.hyps(1) [OF smaller next_le Suc.prems(2,3)] show ?thesis
      unfolding unfold using False step by auto
  qed
qed

lemma findAvailableSlot_from_none:
  "(\<forall>j. i \<le> j \<and> j \<le> 10 \<longrightarrow> \<not> slotAvailable fb vt j) \<Longrightarrow>
   findAvailableSlot_from fb vt i = - 1"
proof (induction "nat (11 - i)" arbitrary: i)
  case 0
  then have "\<not> i \<le> 10" by simp
  then show ?case
    by (subst findAvailableSlot_from_unfold) simp
next
  case (Suc n)
  then have inrange: "i \<le> 10" and smaller: "n = nat (11 - (i + 1))"
    by auto
  from Suc.prems inrange have here: "\<not> slotAvailable fb vt i"
    by simp
  have unfold: "findAvailableSlot_from fb vt i = findAvailableSlot_from fb vt (i + 1)"
    using inrange here by (subst findAvailableSlot_from_unfold) simp
  from Suc.prems have "\<forall>j. i + 1 \<le> j \<and> j \<le> 10 \<longrightarrow> \<not> slotAvailable fb vt j"
    by simp
  from Suc.hyps(1) [OF smaller this] show ?case
    by (simp add: unfold)
qed

text \<open>
  The scan started at 0, stated with the range as a set.
\<close>

lemma findAvailableSlot_first:
  assumes "j \<in> {0..10}" and "slotAvailable fb vt j"
  shows "findAvailableSlot fb vt \<in> {0..j}"
    and "slotAvailable fb vt (findAvailableSlot fb vt)"
    and "\<forall>k\<in>{0..<findAvailableSlot fb vt}. \<not> slotAvailable fb vt k"
  using findAvailableSlot_from_first [of 0 j fb vt] assms
  by (auto simp: findAvailableSlot_def)

lemma findAvailableSlot_none:
  assumes "\<forall>j\<in>{0..10}. \<not> slotAvailable fb vt j"
  shows "findAvailableSlot fb vt = - 1"
  using findAvailableSlot_from_none [of 0 fb vt] assms
  by (simp add: findAvailableSlot_def)

text \<open>
  C1 (first-fit allocation). Whenever some slot \<open>j\<close> of the scan range 0..10 reads as
  of the vehicle's type and not occupied, \<open>findAvailableSlot\<close> returns a slot of the range
  that reads so, that is at most \<open>j\<close>, and below which no slot reads so: the smallest id
  among the free slots of the matching type.
\<close>

theorem first_fit_allocation:
  assumes "j \<in> {0..10}" and "slotAvailable fb vehicleType j"
  shows "findAvailableSlot fb vehicleType \<in> {0..10}
    \<and> slotAvailable fb vehicleType (findAvailableSlot fb vehicleType)
    \<and> findAvailableSlot fb vehicleType \<le> j
    \<and> (\<forall>k\<in>{0..10}. slotAvailable fb vehicleType k \<longrightarrow> findAvailableSlot fb vehicleType \<le> k)"
proof -
  let ?r = "findAvailableSlot fb vehicleType"
  from findAvailableSlot_first [OF assms]
  have range: "?r \<in> {0..j}" and free: "slotAvailable fb vehicleType ?r"
    by simp_all
  have least: "?r \<le> k" if "k \<in> {0..10}" and "slotAvailable fb vehicleType k" for k
    using findAvailableSlot_first(1) [OF that] by simp
  from range assms(1) have "?r \<in> {0..10}" and "?r \<le> j"
    by simp_all
  with free least show ?thesis
    by blast
qed

text \<open>With the car slots 2 and 5 free, the scan for a car returns 2.\<close>

theorem first_fit_allocation_witness:
  "(5 :: int) \<in> {0..10} \<and> slotAvailable ledger_two_free ''car'' 5
   \<and> slotAvailable ledger_two_free ''car'' 2
   \<and> findAvailableSlot ledger_two_free ''car'' = 2
   \<and> findAvailableSlot ledger_two_free ''car'' \<in> {0..10}
   \<and> slotAvailable ledger_two_free ''car'' (findAvailableSlot ledger_two_free ''car'')
   \<and> findAvailableSlot ledger_two_free ''car'' \<le> 5"
proof -
  have five: "slotAvailable ledger_two_free ''car'' 5"
    by code_simp
  have two: "slotAvailable ledger_two_free ''car'' 2"
    by code_simp
  have result: "findAvailableSlot ledger_two_free ''car'' = 2"
    by code_simp
  have inrange: "(5 :: int) \<in> {0..10}"
    by simp
  from first_fit_allocation [OF inrange five] five two result inrange
  show ?thesis
    by blast
qed

section \<open>Properties of the check-in\<close>

lemma slotPath_not_counter [simp]:
  "slotPath i @ suffix \<noteq> ''checkin_count/'' @ vt"
  by (simp add: slotPath_def)

text \<open>
  C2 (capacity exhaustion). When every slot of the scan range whose type reads as the
  vehicle's type reads as occupied, \<open>findAvailableSlot\<close> returns \<open>-1\<close> and the check-in
  issues exactly one request, the append of the alert to \<open>alerts/full_capacity\<close>: no leaf
  value of the store changes (no slot field, no check-in counter), and no other list
  (such as \<open>logs/access\<close>) grows.
\<close>

theorem capacity_exhaustion:
  assumes "\<forall>i\<in>{0..10}. getString fb (slotPath i @ ''/type'') = Some vehicleType
             \<longrightarrow> getBool fb (slotPath i @ ''/occupied'') = Some True"
  shows "findAvailableSlot fb vehicleType = - 1
    \<and> requests (processVehicleCheckIn millis vehicleType licensePlate fb) =
        requests fb @
          [PushString ''alerts/full_capacity''
             (Text (vehicleType @ '' parking full '' @ emdash @ '' '' @ String_ulong millis))]
    \<and> db (processVehicleCheckIn millis vehicleType licensePlate fb) = db fb
    \<and> lists (processVehicleCheckIn millis vehicleType licensePlate fb) =
        (lists fb)(''alerts/full_capacity'' :=
           lists fb ''alerts/full_capacity'' @
             [Text (vehicleType @ '' parking full '' @ emdash @ '' '' @ String_ulong millis)])"
proof -
  from assms have "\<forall>j\<in>{0..10}. \<not> slotAvailable fb vehicleType j"
    by (auto simp: slotAvailable_def)
  then have none: "findAvailableSlot fb vehicleType = - 1"
    by (rule findAvailableSlot_none)
  then show ?thesis
    by (simp add: processVehicleCheckIn_def pushString_def Let_def)
qed

theorem capacity_exhaustion_witness:
  "getString ledger_cars_full (slotPath 1 @ ''/type'') = Some ''car''
   \<and> getBool ledger_cars_full (slotPath 1 @ ''/occupied'') = Some True
   \<and> findAvailableSlot ledger_cars_full ''car'' = - 1
   \<and> requests (processVehicleCheckIn 61000 ''car'' ''PLATE_DETECTED'' ledger_cars_full) =
       [PushString ''alerts/full_capacity''
          (Text (''car parking full '' @ emdash @ '' 61000''))]
   \<and> db (processVehicleCheckIn 61000 ''car'' ''PLATE_DETECTED'' ledger_cars_full) =
       db ledger_cars_full"
proof -
  have full: "\<forall>i\<in>{0..10}. getString ledger_cars_full (slotPath i @ ''/type'') = Some ''car''
       \<longrightarrow> getBool ledger_cars_full (slotPath i @ ''/occupied'') = Some True"
    unfolding scan_range by (simp add: eval_path eval_read ledger_cars_full_def)
  have car: "getString ledger_cars_full (slotPath 1 @ ''/type'') = Some ''car''"
    by (simp add: eval_path eval_read ledger_cars_full_def)
  have taken: "getBool ledger_cars_full (slotPath 1 @ ''/occupied'') = Some True"
    by (simp add: eval_path eval_read ledger_cars_full_def)
  have clock: "String_ulong 61000 = ''61000''"
    by (simp add: String_ulong_def decimal.simps digit_def)
  have start: "requests ledger_cars_full = []"
    by (simp add: ledger_cars_full_def store_of_def)
  from capacity_exhaustion [OF full, of 61000 "''PLATE_DETECTED''"] car taken clock start
  show ?thesis
    by simp
qed

text \<open>
  C7 (store read failure during allocation). The claim fails as stated: a failed read does
  not end the scan. In \<open>ledger_unreadable\<close> the type of slot 0 reads as car and the read
  of its \<open>occupied\<close> field fails; the scan goes on, returns slot 1, and the check-in
  claims slot 1 in the same pass.
\<close>

theorem read_failure_aborts_counterexample:
  "getString ledger_unreadable (slotPath 0 @ ''/type'') = Some ''car''
   \<and> getBool ledger_unreadable (slotPath 0 @ ''/occupied'') = None
   \<and> findAvailableSlot ledger_unreadable ''car'' = 1
   \<and> db (processVehicleCheckIn 61000 ''car'' '''' ledger_unreadable)
        ''parking_spots/slot_1/occupied'' = Some (FBool True)
   \<and> lists (processVehicleCheckIn 61000 ''car'' '''' ledger_unreadable)
        ''alerts/full_capacity'' = []"
  by code_simp

text \<open>The two branches of \<open>processVehicleCheckIn\<close>.\<close>

lemma processVehicleCheckIn_exhausted:
  assumes "findAvailableSlot fb vehicleType = - 1"
  shows "processVehicleCheckIn millis vehicleType licensePlate fb =
     pushString ''alerts/full_capacity''
       (Text (vehicleType @ '' parking full '' @ emdash @ '' '' @ String_ulong millis)) fb"
  using assms by (simp add: processVehicleCheckIn_def Let_def)

lemma processVehicleCheckIn_claims:
  assumes "findAvailableSlot fb vehicleType \<ge> 0"
  shows "filter ledger_write (issued fb (processVehicleCheckIn millis vehicleType licensePlate fb)) =
      [SetBool (slotPath (findAvailableSlot fb vehicleType) @ ''/occupied'') True,
       SetString (slotPath (findAvailableSlot fb vehicleType) @ ''/vehicle_type'') vehicleType,
       SetString (slotPath (findAvailableSlot fb vehicleType) @ ''/license_plate'') licensePlate,
       SetInt (slotPath (findAvailableSlot fb vehicleType) @ ''/entry_time'') (seconds millis)]"
    and "db (processVehicleCheckIn millis vehicleType licensePlate fb)
           (slotPath (findAvailableSlot fb vehicleType) @ ''/occupied'') = Some (FBool True)"
    and "lists (processVehicleCheckIn millis vehicleType licensePlate fb) ''alerts/full_capacity''
           = lists fb ''alerts/full_capacity''"
proof -
  let ?slot = "findAvailableSlot fb vehicleType"
  let ?assigned = "assignSlot millis ?slot vehicleType licensePlate fb"
  let ?counted = "incrementCheckinCount vehicleType ?assigned"
  have flow: "processVehicleCheckIn millis vehicleType licensePlate fb =
      logAccess millis ''CHECK_IN'' vehicleType licensePlate ?slot ?counted"
    using assms by (simp add: processVehicleCheckIn_def Let_def)
  have assigned_requests: "requests ?assigned = requests fb @
      [SetBool (slotPath ?slot @ ''/occupied'') True,
       SetString (slotPath ?slot @ ''/vehicle_type'') vehicleType,
       SetString (slotPath ?slot @ ''/license_plate'') licensePlate,
       SetInt (slotPath ?slot @ ''/entry_time'') (seconds millis)]"
    by (simp add: assignSlot_def Let_def setBool_def setString_def setInt_def)
  have assigned_lists: "lists ?assigned = lists fb"
    by (simp add: assignSlot_def Let_def setBool_def setString_def setInt_def)
  have assigned_occupied: "db ?assigned (slotPath ?slot @ ''/occupied'') = Some (FBool True)"
    by (simp add: assignSlot_def Let_def setBool_def setString_def setInt_def)
  have counted: "?counted = ?assigned
      \<or> (\<exists>n. ?counted = setInt (''checkin_count/'' @ vehicleType) n ?assigned)"
  proof (cases "getInt ?assigned (''checkin_count/'' @ vehicleType)")
    case None
    then show ?thesis
      by (simp add: incrementCheckinCount_def Let_def)
  next
    case (Some current)
    then have "?counted = setInt (''checkin_count/'' @ vehicleType) (current + 1) ?assigned"
      by (simp add: incrementCheckinCount_def Let_def)
    then show ?thesis
      by blast
  qed
  then show "filter ledger_write (issued fb (processVehicleCheckIn millis vehicleType licensePlate fb)) =
      [SetBool (slotPath ?slot @ ''/occupied'') True,
       SetString (slotPath ?slot @ ''/vehicle_type'') vehicleType,
       SetString (slotPath ?slot @ ''/license_plate'') licensePlate,
       SetInt (slotPath ?slot @ ''/entry_time'') (seconds millis)]"
    using assigned_requests
    by (auto simp: flow issued_def logAccess_def Let_def pushString_def setInt_def
          ledger_write_def slotPath_def)
  from counted show "db (processVehicleCheckIn millis vehicleType licensePlate fb)
           (slotPath ?slot @ ''/occupied'') = Some (FBool True)"
    using assigned_occupied
    by (auto simp: flow logAccess_def Let_def pushString_def setInt_def slotPath_def)
  from counted show "lists (processVehicleCheckIn millis vehicleType licensePlate fb)
           ''alerts/full_capacity'' = lists fb ''alerts/full_capacity''"
    using assigned_lists
    by (auto simp: flow logAccess_def Let_def pushString_def setInt_def)
qed

text \<open>
  C7 as amended. A failed read of the \<open>type\<close> or of the \<open>occupied\<close> field of slot \<open>k\<close>
  makes the scan pass over slot \<open>k\<close> only: \<open>k\<close> is never returned and the scan goes on.
  When some slot of the range reads as free and of the matching type, the scan returns
  the first such slot and the check-in claims it: its ledger writes are the four writes
  of \<open>assignSlot\<close> to that slot, whose \<open>occupied\<close> field is then true, and no alert is
  appended. The scan returns \<open>-1\<close> exactly when no slot of the range reads so, and then
  the attempt has the effect of capacity exhaustion: the only request issued is the
  append of the alert and no stored value changes, so no slot is claimed.
\<close>

theorem read_failure_skips_slot:
  assumes "k \<in> {0..10}"
    and "getString fb (slotPath k @ ''/type'') = None
         \<or> getBool fb (slotPath k @ ''/occupied'') = None"
  shows "findAvailableSlot fb vehicleType \<noteq> k
    \<and> (findAvailableSlot fb vehicleType = - 1
         \<longleftrightarrow> (\<forall>j\<in>{0..10}. \<not> slotAvailable fb vehicleType j))
    \<and> (\<forall>j\<in>{0..10}. slotAvailable fb vehicleType j \<longrightarrow>
          findAvailableSlot fb vehicleType \<in> {0..j}
          \<and> slotAvailable fb vehicleType (findAvailableSlot fb vehicleType)
          \<and> filter ledger_write
               (issued fb (processVehicleCheckIn millis vehicleType licensePlate fb)) =
             [SetBool (slotPath (findAvailableSlot fb vehicleType) @ ''/occupied'') True,
              SetString (slotPath (findAvailableSlot fb vehicleType) @ ''/vehicle_type'')
                vehicleType,
              SetString (slotPath (findAvailableSlot fb vehicleType) @ ''/license_plate'')
                licensePlate,
              SetInt (slotPath (findAvailableSlot fb vehicleType) @ ''/entry_time'')
                (seconds millis)]
          \<and> db (processVehicleCheckIn millis vehicleType licensePlate fb)
               (slotPath (findAvailableSlot fb vehicleType) @ ''/occupied'') = Some (FBool True)
          \<and> lists (processVehicleCheckIn millis vehicleType licensePlate fb)
               ''alerts/full_capacity'' = lists fb ''alerts/full_capacity'')
    \<and> ((\<forall>j\<in>{0..10}. \<not> slotAvailable fb vehicleType j) \<longrightarrow>
          issued fb (processVehicleCheckIn millis vehicleType licensePlate fb) =
            [PushString ''alerts/full_capacity''
               (Text (vehicleType @ '' parking full '' @ emdash @ '' '' @ String_ulong millis))]
          \<and> db (processVehicleCheckIn millis vehicleType licensePlate fb) = db fb)"
proof -
  let ?r = "findAvailableSlot fb vehicleType"
  let ?P = "processVehicleCheckIn millis vehicleType licensePlate fb"
  from assms(2) have skipped: "\<not> slotAvailable fb vehicleType k"
    by (auto simp: slotAvailable_def)
  have found: "?r \<in> {0..j} \<and> slotAvailable fb vehicleType ?r"
    if "j \<in> {0..10}" and "slotAvailable fb vehicleType j" for j
    using findAvailableSlot_first(1,2) [OF that] by simp
  have exhausted: "?r = - 1" if "\<forall>j\<in>{0..10}. \<not> slotAvailable fb vehicleType j"
    using that by (rule findAvailableSlot_none)
  have not_k: "?r \<noteq> k"
  proof (cases "\<forall>j\<in>{0..10}. \<not> slotAvailable fb vehicleType j")
    case True
    with exhausted assms(1) show ?thesis by auto
  next
    case False
    then obtain j where "j \<in> {0..10}" and "slotAvailable fb vehicleType j"
      by blast
    then have "slotAvailable fb vehicleType ?r"
      using found by blast
    with skipped show ?thesis by auto
  qed
  have iff: "?r = - 1 \<longleftrightarrow> (\<forall>j\<in>{0..10}. \<not> slotAvailable fb vehicleType j)"
  proof
    assume minus: "?r = - 1"
    show "\<forall>j\<in>{0..10}. \<not> slotAvailable fb vehicleType j"
    proof
      fix j :: int
      assume j: "j \<in> {0..10}"
      show "\<not> slotAvailable fb vehicleType j"
      proof
        assume "slotAvailable fb vehicleType j"
        from found [OF j this] minus show False by simp
      qed
    qed
  next
    assume "\<forall>j\<in>{0..10}. \<not> slotAvailable fb vehicleType j"
    then show "?r = - 1" by (rule exhausted)
  qed
  have claimed: "filter ledger_write (issued fb ?P) =
             [SetBool (slotPath ?r @ ''/occupied'') True,
              SetString (slotPath ?r @ ''/vehicle_type'') vehicleType,
              SetString (slotPath ?r @ ''/license_plate'') licensePlate,
              SetInt (slotPath ?r @ ''/entry_time'') (seconds millis)]
          \<and> db ?P (slotPath ?r @ ''/occupied'') = Some (FBool True)
          \<and> lists ?P ''alerts/full_capacity'' = lists fb ''alerts/full_capacity''"
    if "j \<in> {0..10}" and "slotAvailable fb vehicleType j" for j
  proof -
    from found [OF that] have "?r \<ge> 0"
      by simp
    from processVehicleCheckIn_claims [OF this] show ?thesis
      by simp
  qed
  have alert_only: "issued fb ?P =
            [PushString ''alerts/full_capacity''
               (Text (vehicleType @ '' parking full '' @ emdash @ '' '' @ String_ulong millis))]
          \<and> db ?P = db fb"
    if "\<forall>j\<in>{0..10}. \<not> slotAvailable fb vehicleType j"
    using processVehicleCheckIn_exhausted [OF exhausted [OF that], of millis licensePlate]
    by (simp add: issued_def pushString_def)
  from not_k iff found claimed alert_only show ?thesis
    by blast
qed

theorem read_failure_skips_slot_witness:
  "getBool ledger_unreadable (slotPath 0 @ ''/occupied'') = None
   \<and> slotAvailable ledger_unreadable ''car'' 1
   \<and> findAvailableSlot ledger_unreadable ''car'' = 1
   \<and> filter ledger_write
        (issued ledger_unreadable (processVehicleCheckIn 61000 ''car'' '''' ledger_unreadable)) =
      [SetBool ''parking_spots/slot_1/occupied'' True,
       SetString ''parking_spots/slot_1/vehicle_type'' ''car'',
       SetString ''parking_spots/slot_1/license_plate'' '''',
       SetInt ''parking_spots/slot_1/entry_time'' 61]
   \<and> db (processVehicleCheckIn 61000 ''car'' '''' ledger_unreadable)
        ''parking_spots/slot_1/occupied'' = Some (FBool True)
   \<and> getBool ledger_unreadable_full (slotPath 0 @ ''/occupied'') = None
   \<and> findAvailableSlot ledger_unreadable_full ''car'' = - 1
   \<and> issued ledger_unreadable_full
        (processVehicleCheckIn 61000 ''car'' '''' ledger_unreadable_full) =
      [PushString ''alerts/full_capacity'' (Text (''car parking full '' @ emdash @ '' 61000''))]
   \<and> db (processVehicleCheckIn 61000 ''car'' '''' ledger_unreadable_full)
      = db ledger_unreadable_full"
proof -
  have inrange: "(0 :: int) \<in> {0..10}" "(1 :: int) \<in> {0..10}"
    by simp_all
  have failed: "getString ledger_unreadable (slotPath 0 @ ''/type'') = None
         \<or> getBool ledger_unreadable (slotPath 0 @ ''/occupied'') = None"
    by (simp add: eval_path eval_read ledger_unreadable_def)
  have occupied: "getBool ledger_unreadable (slotPath 0 @ ''/occupied'') = None"
    by (simp add: eval_path eval_read ledger_unreadable_def)
  have free: "slotAvailable ledger_unreadable ''car'' 1"
    by (simp add: slotAvailable_def eval_path eval_read ledger_unreadable_def)
  have failed_full: "getString ledger_unreadable_full (slotPath 0 @ ''/type'') = None
         \<or> getBool ledger_unreadable_full (slotPath 0 @ ''/occupied'') = None"
    by (simp add: eval_path eval_read ledger_unreadable_full_def)
  have occupied_full: "getBool ledger_unreadable_full (slotPath 0 @ ''/occupied'') = None"
    by (simp add: eval_path eval_read ledger_unreadable_full_def)
  have none_full: "\<forall>j\<in>{0..10}. \<not> slotAvailable ledger_unreadable_full ''car'' j"
    unfolding scan_range
    by (simp add: slotAvailable_def eval_path eval_read ledger_unreadable_full_def)
  have paths: "slotPath 1 = ''parking_spots/slot_1''"
    by (simp add: eval_path)
  have clock: "String_ulong 61000 = ''61000''" "seconds 61000 = 61"
    by (simp_all add: String_ulong_def decimal.simps digit_def seconds_def)
  note success = read_failure_skips_slot
    [OF inrange(1) failed, of "''car''" 61000 "''''"]
  note failure = read_failure_skips_slot
    [OF inrange(1) failed_full, of "''car''" 61000 "''''"]
  note at_one = success [THEN conjunct2, THEN conjunct2, THEN conjunct1,
    THEN bspec, OF inrange(2), THEN mp, OF free]
  from success [THEN conjunct1] at_one [THEN conjunct1]
  have slot: "findAvailableSlot ledger_unreadable ''car'' = 1"
    by simp
  from at_one [THEN conjunct2, THEN conjunct2]
  have claimed: "filter ledger_write
        (issued ledger_unreadable (processVehicleCheckIn 61000 ''car'' '''' ledger_unreadable)) =
      [SetBool ''parking_spots/slot_1/occupied'' True,
       SetString ''parking_spots/slot_1/vehicle_type'' ''car'',
       SetString ''parking_spots/slot_1/license_plate'' '''',
       SetInt ''parking_spots/slot_1/entry_time'' 61]
   \<and> db (processVehicleCheckIn 61000 ''car'' '''' ledger_unreadable)
        ''parking_spots/slot_1/occupied'' = Some (FBool True)"
    by (simp add: slot paths clock)
  from failure [THEN conjunct2, THEN conjunct1] none_full
  have minus: "findAvailableSlot ledger_unreadable_full ''car'' = - 1"
    by simp
  from failure [THEN conjunct2, THEN conjunct2, THEN conjunct2, THEN mp, OF none_full]
  have alert: "issued ledger_unreadable_full
        (processVehicleCheckIn 61000 ''car'' '''' ledger_unreadable_full) =
      [PushString ''alerts/full_capacity'' (Text (''car parking full '' @ emdash @ '' 61000''))]
   \<and> db (processVehicleCheckIn 61000 ''car'' '''' ledger_unreadable_full)
      = db ledger_unreadable_full"
    by (simp add: clock)
  from occupied free slot claimed occupied_full minus alert show ?thesis
    by simp
qed

text \<open>
  C8 (allocation side effects). The claim fails as stated: \<open>incrementCheckinCount\<close> writes
  the counter only if it can read it. In \<open>ledger_two_free\<close> no counter is stored under
  \<open>checkin_count/car\<close>; the check-in of a car claims slot 2 and appends the access-log
  entry, and the counter is neither written nor created.
\<close>

theorem checkin_counter_counterexample:
  "findAvailableSlot ledger_two_free ''car'' = 2
   \<and> getInt ledger_two_free ''checkin_count/car'' = None
   \<and> db (processVehicleCheckIn 61000 ''car'' '''' ledger_two_free) ''checkin_count/car'' = None
   \<and> requests (processVehicleCheckIn 61000 ''car'' '''' ledger_two_free) =
       [SetBool ''parking_spots/slot_2/occupied'' True,
        SetString ''parking_spots/slot_2/vehicle_type'' ''car'',
        SetString ''parking_spots/slot_2/license_plate'' '''',
        SetInt ''parking_spots/slot_2/entry_time'' 61,
        PushString ''logs/access''
          (Serialized [(''action'', JString ''CHECK_IN''), (''type'', JString ''car''),
                       (''plate'', JString ''''), (''slot'', JInt 2),
                       (''timestamp'', JInt 61)])]"
  by code_simp

text \<open>
  C8 as amended. For every successful allocation (the scan returns a slot id, which is
  then claimed by the four writes of \<open>assignSlot\<close>) the check-in appends exactly one
  access-log entry; it writes the check-in counter of the vehicle type, with the value
  read plus one (in 32-bit \<open>int\<close> arithmetic), exactly when the read of that counter
  succeeds, and leaves the counter as it is when the read fails.
\<close>

theorem checkin_side_effects:
  assumes "findAvailableSlot fb vehicleType \<ge> 0"
  shows "requests (processVehicleCheckIn millis vehicleType licensePlate fb) =
      requests fb @
      [SetBool (slotPath (findAvailableSlot fb vehicleType) @ ''/occupied'') True,
       SetString (slotPath (findAvailableSlot fb vehicleType) @ ''/vehicle_type'') vehicleType,
       SetString (slotPath (findAvailableSlot fb vehicleType) @ ''/license_plate'') licensePlate,
       SetInt (slotPath (findAvailableSlot fb vehicleType) @ ''/entry_time'') (seconds millis)] @
      (case getInt fb (''checkin_count/'' @ vehicleType) of
         Some current \<Rightarrow> [SetInt (''checkin_count/'' @ vehicleType) (current + 1)]
       | None \<Rightarrow> []) @
      [PushString ''logs/access''
         (Serialized [(''action'', JString ''CHECK_IN''), (''type'', JString vehicleType),
                      (''plate'', JString licensePlate),
                      (''slot'', JInt (word_of_int (findAvailableSlot fb vehicleType))),
                      (''timestamp'', JInt (seconds millis))])]
    \<and> lists (processVehicleCheckIn millis vehicleType licensePlate fb) ''logs/access'' =
      lists fb ''logs/access'' @
      [Serialized [(''action'', JString ''CHECK_IN''), (''type'', JString vehicleType),
                   (''plate'', JString licensePlate),
                   (''slot'', JInt (word_of_int (findAvailableSlot fb vehicleType))),
                   (''timestamp'', JInt (seconds millis))]]
    \<and> db (processVehicleCheckIn millis vehicleType licensePlate fb)
         (''checkin_count/'' @ vehicleType) =
      (case getInt fb (''checkin_count/'' @ vehicleType) of
         Some current \<Rightarrow> Some (FInt (current + 1))
       | None \<Rightarrow> db fb (''checkin_count/'' @ vehicleType))"
proof -
  let ?slot = "findAvailableSlot fb vehicleType"
  let ?assigned = "assignSlot millis ?slot vehicleType licensePlate fb"
  let ?counted = "incrementCheckinCount vehicleType ?assigned"
  have flow: "processVehicleCheckIn millis vehicleType licensePlate fb =
      logAccess millis ''CHECK_IN'' vehicleType licensePlate ?slot ?counted"
    using assms by (simp add: processVehicleCheckIn_def Let_def)
  have assigned_requests: "requests ?assigned = requests fb @
      [SetBool (slotPath ?slot @ ''/occupied'') True,
       SetString (slotPath ?slot @ ''/vehicle_type'') vehicleType,
       SetString (slotPath ?slot @ ''/license_plate'') licensePlate,
       SetInt (slotPath ?slot @ ''/entry_time'') (seconds millis)]"
    by (simp add: assignSlot_def Let_def setBool_def setString_def setInt_def)
  have assigned_lists: "lists ?assigned = lists fb"
    by (simp add: assignSlot_def Let_def setBool_def setString_def setInt_def)
  have assigned_counter:
    "db ?assigned (''checkin_count/'' @ vehicleType) = db fb (''checkin_count/'' @ vehicleType)"
    by (simp add: assignSlot_def Let_def setBool_def setString_def setInt_def slotPath_def)
  then have read: "getInt ?assigned (''checkin_count/'' @ vehicleType) =
      getInt fb (''checkin_count/'' @ vehicleType)"
    by (simp add: getInt_def)
  show ?thesis
  proof (cases "getInt fb (''checkin_count/'' @ vehicleType)")
    case None
    with read have "?counted = ?assigned"
      by (simp add: incrementCheckinCount_def Let_def)
    with None assigned_requests assigned_lists assigned_counter show ?thesis
      by (simp add: flow logAccess_def Let_def pushString_def)
  next
    case (Some current)
    with read have "?counted =
        setInt (''checkin_count/'' @ vehicleType) (current + 1) ?assigned"
      by (simp add: incrementCheckinCount_def Let_def)
    with Some assigned_requests assigned_lists show ?thesis
      by (simp add: flow logAccess_def Let_def pushString_def setInt_def)
  qed
qed

theorem checkin_side_effects_witness:
  "findAvailableSlot ledger_unreadable ''car'' = 1
   \<and> getInt ledger_unreadable ''checkin_count/car'' = Some 0
   \<and> db (processVehicleCheckIn 61000 ''car'' '''' ledger_unreadable) ''checkin_count/car''
       = Some (FInt 1)
   \<and> lists (processVehicleCheckIn 61000 ''car'' '''' ledger_unreadable) ''logs/access'' =
       [Serialized [(''action'', JString ''CHECK_IN''), (''type'', JString ''car''),
                    (''plate'', JString ''''), (''slot'', JInt 1),
                    (''timestamp'', JInt 61)]]"
proof -
  have slot: "findAvailableSlot ledger_unreadable ''car'' = 1"
    by code_simp
  then have found: "findAvailableSlot ledger_unreadable ''car'' \<ge> 0"
    by simp
  have counter: "getInt ledger_unreadable ''checkin_count/car'' = Some 0"
    by (simp add: eval_read ledger_unreadable_def)
  have log: "lists ledger_unreadable ''logs/access'' = []"
    by (simp add: ledger_unreadable_def store_of_def)
  have clock: "seconds 61000 = 61"
    by (simp add: seconds_def)
  from checkin_side_effects [OF found, of 61000 "''''"] slot counter log clock
  show ?thesis
    by simp
qed

section \<open>Properties of the Occupancy Tracker\<close>

lemma slotPath_SLOT_ID: "slotPath SLOT_ID = ''parking_spots/slot_0''"
  by (simp add: SLOT_ID_def eval_path)

lemmas write_defs = setBool_def setString_def setInt_def pushString_def

lemma updateSlotOccupancy_requests:
  "requests (updateSlotOccupancy millis occupied fb) = requests fb @
     (if occupied
      then [SetBool ''parking_spots/slot_0/occupied'' True,
            SetInt ''parking_spots/slot_0/entry_time'' (seconds millis)]
      else [SetBool ''parking_spots/slot_0/occupied'' False,
            SetString ''parking_spots/slot_0/vehicle_type'' '''',
            SetString ''parking_spots/slot_0/license_plate'' '''',
            SetInt ''parking_spots/slot_0/entry_time'' 0])"
  by (simp add: updateSlotOccupancy_def slotPath_SLOT_ID Let_def write_defs)

text \<open>
  C5 (vacate clears metadata). The vacate path is \<open>updateSlotOccupancy(false)\<close>. Whatever
  the slot record held before, after the call its \<open>occupied\<close> field is false, its
  \<open>vehicle_type\<close> and \<open>license_plate\<close> are the empty string and its \<open>entry_time\<close> is 0;
  the call issues these four writes and nothing else.
\<close>

theorem vacate_clears_metadata:
  "db (updateSlotOccupancy millis False fb) ''parking_spots/slot_0/occupied'' = Some (FBool False)
   \<and> db (updateSlotOccupancy millis False fb) ''parking_spots/slot_0/vehicle_type''
       = Some (FString '''')
   \<and> db (updateSlotOccupancy millis False fb) ''parking_spots/slot_0/license_plate''
       = Some (FString '''')
   \<and> db (updateSlotOccupancy millis False fb) ''parking_spots/slot_0/entry_time''
       = Some (FInt 0)
   \<and> issued fb (updateSlotOccupancy millis False fb) =
       [SetBool ''parking_spots/slot_0/occupied'' False,
        SetString ''parking_spots/slot_0/vehicle_type'' '''',
        SetString ''parking_spots/slot_0/license_plate'' '''',
        SetInt ''parking_spots/slot_0/entry_time'' 0]"
  by (simp add: issued_def updateSlotOccupancy_requests)
     (simp add: updateSlotOccupancy_def slotPath_SLOT_ID Let_def write_defs)

text \<open>
  C9 (idempotent re-vacate). A second \<open>updateSlotOccupancy(false)\<close> right after a first
  one (at any later clock value) leaves every leaf value of the store, and so the slot
  record, as the first call left it; the append-only lists are not touched either.
\<close>

theorem vacate_idempotent:
  "db (updateSlotOccupancy millis' False (updateSlotOccupancy millis False fb))
     = db (updateSlotOccupancy millis False fb)
   \<and> lists (updateSlotOccupancy millis' False (updateSlotOccupancy millis False fb))
     = lists (updateSlotOccupancy millis False fb)"
proof
  show "db (updateSlotOccupancy millis' False (updateSlotOccupancy millis False fb))
     = db (updateSlotOccupancy millis False fb)"
    by (rule ext) (simp add: updateSlotOccupancy_def slotPath_SLOT_ID Let_def write_defs)
  show "lists (updateSlotOccupancy millis' False (updateSlotOccupancy millis False fb))
     = lists (updateSlotOccupancy millis False fb)"
    by (simp add: updateSlotOccupancy_def slotPath_SLOT_ID Let_def write_defs)
qed

text \<open>
  The requests one pass of \<open>loop\<close> issues: the heartbeat writes when they are due, then
  the writes of \<open>updateSlotOccupancy\<close> when the presence decided differs from
  \<open>previousOccupied\<close>.
\<close>

lemma loop_slot_requests:
  "requests (snd (loop_slot millis capture (s, fb))) = requests fb @
     (if millis - lastHeartbeat s > 30000
      then [SetString ''cameras/slot_cam_0/status'' ''online'',
            SetInt ''cameras/slot_cam_0/last_heartbeat'' (seconds millis)]
      else []) @
     (if millis - lastCheckTime s < CHECK_INTERVAL_MS then []
      else case capture of
         None \<Rightarrow> []
       | Some r \<Rightarrow>
           if r = Empty \<or> detectVehiclePresence r = previousOccupied s then []
           else if detectVehiclePresence r
           then [SetBool ''parking_spots/slot_0/occupied'' True,
                 SetInt ''parking_spots/slot_0/entry_time'' (seconds millis)]
           else [SetBool ''parking_spots/slot_0/occupied'' False,
                 SetString ''parking_spots/slot_0/vehicle_type'' '''',
                 SetString ''parking_spots/slot_0/license_plate'' '''',
                 SetInt ''parking_spots/slot_0/entry_time'' 0])"
  by (auto simp: loop_slot_def Let_def updateSlotOccupancy_requests CAMERA_ID_slot_def
        setString_def setInt_def split: option.splits)

lemma loop_slot_state:
  "fst (loop_slot millis capture (s, fb)) = fst (loop_slot millis capture (s, fb'))"
  by (auto simp: loop_slot_def Let_def split: option.splits)

lemma loop_slot_previousOccupied:
  "previousOccupied (fst (loop_slot millis capture (s, fb))) =
     (if millis - lastCheckTime s < CHECK_INTERVAL_MS then previousOccupied s
      else case capture of
         None \<Rightarrow> previousOccupied s
       | Some r \<Rightarrow> if r = Empty then previousOccupied s else detectVehiclePresence r)"
  by (auto simp: loop_slot_def Let_def split: option.splits)

lemma run_slot_state:
  "fst (run_slot passes (s, fb)) = fst (run_slot passes (s, fb'))"
proof (induction passes arbitrary: s fb fb')
  case Nil
  show ?case by simp
next
  case (Cons pass passes)
  obtain millis capture where pass: "pass = (millis, capture)"
    by (cases pass)
  obtain s1 fb1 where one: "loop_slot millis capture (s, fb) = (s1, fb1)"
    by (cases "loop_slot millis capture (s, fb)")
  obtain s2 fb2 where two: "loop_slot millis capture (s, fb') = (s2, fb2)"
    by (cases "loop_slot millis capture (s, fb')")
  from loop_slot_state [of millis capture s fb fb'] one two have "s1 = s2"
    by simp
  with Cons.IH [of s1 fb1 fb2] show ?case
    by (simp add: pass one two)
qed

lemma run_slot_requests:
  "\<exists>ws. \<forall>fb. requests (snd (run_slot passes (s, fb))) = requests fb @ ws"
proof (induction passes arbitrary: s)
  case Nil
  show ?case by simp
next
  case (Cons pass passes)
  obtain millis capture where pass: "pass = (millis, capture)"
    by (cases pass)
  define s1 where "s1 = fst (loop_slot millis capture (s, undefined))"
  have state: "fst (loop_slot millis capture (s, fb)) = s1" for fb
    unfolding s1_def by (rule loop_slot_state)
  from loop_slot_requests [of millis capture s]
  obtain ws1 where first: "\<And>fb. requests (snd (loop_slot millis capture (s, fb))) = requests fb @ ws1"
    by blast
  from Cons.IH [of s1]
  obtain ws2 where rest: "\<And>fb. requests (snd (run_slot passes (s1, fb))) = requests fb @ ws2"
    by blast
  have "requests (snd (run_slot (pass # passes) (s, fb))) = requests fb @ (ws1 @ ws2)" for fb
  proof -
    obtain fb1 where one: "loop_slot millis capture (s, fb) = (s1, fb1)"
      using state [of fb] by (cases "loop_slot millis capture (s, fb)") simp
    from first [of fb] one have "requests fb1 = requests fb @ ws1"
      by simp
    with rest [of fb1] show ?thesis
      by (simp add: pass one)
  qed
  then show ?case
    by blast
qed

lemma heartbeat_not_ledger [simp]:
  "\<not> ledger_write (SetString ''cameras/slot_cam_0/status'' v)"
  "\<not> ledger_write (SetInt ''cameras/slot_cam_0/last_heartbeat'' n)"
  by (simp_all add: ledger_write_def)

lemma slot_ledger_write [simp]:
  "ledger_write (SetBool ''parking_spots/slot_0/occupied'' b)"
  "ledger_write (SetInt ''parking_spots/slot_0/entry_time'' n)"
  "ledger_write (SetString ''parking_spots/slot_0/vehicle_type'' v)"
  "ledger_write (SetString ''parking_spots/slot_0/license_plate'' v)"
  by (simp_all add: ledger_write_def)

lemma loop_slot_unchanged:
  assumes "decided millis capture s \<noteq> Some (\<not> previousOccupied s)"
  shows "\<exists>ws. requests (snd (loop_slot millis capture (s, fb))) = requests fb @ ws
            \<and> filter ledger_write ws = []"
    and "previousOccupied (fst (loop_slot millis capture (s, fb))) = previousOccupied s"
  using assms
  by (auto simp: decided_def loop_slot_requests loop_slot_previousOccupied
        split: option.splits if_splits)

lemma run_slot_unchanged:
  assumes "steady passes (s, fb)"
  shows "\<exists>ws. requests (snd (run_slot passes (s, fb))) = requests fb @ ws
            \<and> filter ledger_write ws = []
            \<and> previousOccupied (fst (run_slot passes (s, fb))) = previousOccupied s"
  using assms
proof (induction passes arbitrary: s fb)
  case Nil
  show ?case by simp
next
  case (Cons pass passes)
  obtain millis capture where pass: "pass = (millis, capture)"
    by (cases pass)
  obtain s1 fb1 where one: "loop_slot millis capture (s, fb) = (s1, fb1)"
    by (cases "loop_slot millis capture (s, fb)")
  from Cons.prems pass one
  have here: "decided millis capture s \<noteq> Some (\<not> previousOccupied s)"
    and later: "steady passes (s1, fb1)"
    by simp_all
  from loop_slot_unchanged [OF here, of fb] one
  obtain ws1 where first: "requests fb1 = requests fb @ ws1" "filter ledger_write ws1 = []"
    and same: "previousOccupied s1 = previousOccupied s"
    by auto
  from Cons.IH [OF later]
  obtain ws2 where rest: "requests (snd (run_slot passes (s1, fb1))) = requests fb1 @ ws2"
      "filter ledger_write ws2 = []"
      "previousOccupied (fst (run_slot passes (s1, fb1))) = previousOccupied s1"
    by blast
  from first rest same
  have "requests (snd (run_slot (pass # passes) (s, fb))) = requests fb @ (ws1 @ ws2)
      \<and> filter ledger_write (ws1 @ ws2) = []
      \<and> previousOccupied (fst (run_slot (pass # passes) (s, fb))) = previousOccupied s"
    by (simp add: pass one)
  then show ?case
    by blast
qed

text \<open>
  C6 (change-only write). The claim fails as stated in its second half: the ledger update
  of a flip is not one store write. With the slot held occupied, a pass whose response
  shows no vehicle decides "not present" and issues the four writes of the vacate branch.
\<close>

theorem change_only_write_counterexample:
  "decided 15000 (Some (Json [])) tracking_occupied = Some False
   \<and> previousOccupied tracking_occupied = True
   \<and> filter ledger_write
       (issued (store_of []) (snd (loop_slot 15000 (Some (Json [])) (tracking_occupied, store_of []))))
     = [SetBool ''parking_spots/slot_0/occupied'' False,
        SetString ''parking_spots/slot_0/vehicle_type'' '''',
        SetString ''parking_spots/slot_0/license_plate'' '''',
        SetInt ''parking_spots/slot_0/entry_time'' 0]
   \<and> length (filter ledger_write
       (issued (store_of []) (snd (loop_slot 15000 (Some (Json [])) (tracking_occupied, store_of [])))))
     \<noteq> 1"
  by (simp add: decided_def issued_def loop_slot_requests tracking_occupied_def
        CHECK_INTERVAL_MS_def)

text \<open>
  C6 as amended. Over any run of passes in which every presence decided equals
  \<open>previousOccupied\<close> (the run is \<open>steady\<close>), the tracker issues no write to the slot
  ledger and \<open>previousOccupied\<close> keeps its value. On a pass that decides a presence
  different from \<open>previousOccupied\<close> it makes exactly one ledger update, the call of
  \<open>updateSlotOccupancy\<close>, which issues two writes on arrival (\<open>occupied\<close>,
  \<open>entry_time\<close>) and four on departure (\<open>occupied\<close>, \<open>vehicle_type\<close>,
  \<open>license_plate\<close>, \<open>entry_time\<close>), and \<open>previousOccupied\<close> takes the new presence.
\<close>

theorem change_only_write:
  "(steady passes (s, fb)
     \<longrightarrow> filter ledger_write (issued fb (snd (run_slot passes (s, fb)))) = []
         \<and> previousOccupied (fst (run_slot passes (s, fb))) = previousOccupied s)
   \<and> (decided millis capture s = Some nowOccupied \<and> nowOccupied \<noteq> previousOccupied s
     \<longrightarrow> filter ledger_write (issued fb (snd (loop_slot millis capture (s, fb)))) =
           (if nowOccupied
            then [SetBool ''parking_spots/slot_0/occupied'' True,
                  SetInt ''parking_spots/slot_0/entry_time'' (seconds millis)]
            else [SetBool ''parking_spots/slot_0/occupied'' False,
                  SetString ''parking_spots/slot_0/vehicle_type'' '''',
                  SetString ''parking_spots/slot_0/license_plate'' '''',
                  SetInt ''parking_spots/slot_0/entry_time'' 0])
         \<and> previousOccupied (fst (loop_slot millis capture (s, fb))) = nowOccupied)"
proof (intro conjI impI)
  assume "steady passes (s, fb)"
  from run_slot_unchanged [OF this]
  show "filter ledger_write (issued fb (snd (run_slot passes (s, fb)))) = []"
    and "previousOccupied (fst (run_slot passes (s, fb))) = previousOccupied s"
    by (auto simp: issued_def)
next
  assume flip: "decided millis capture s = Some nowOccupied \<and> nowOccupied \<noteq> previousOccupied s"
  then show "filter ledger_write (issued fb (snd (loop_slot millis capture (s, fb)))) =
           (if nowOccupied
            then [SetBool ''parking_spots/slot_0/occupied'' True,
                  SetInt ''parking_spots/slot_0/entry_time'' (seconds millis)]
            else [SetBool ''parking_spots/slot_0/occupied'' False,
                  SetString ''parking_spots/slot_0/vehicle_type'' '''',
                  SetString ''parking_spots/slot_0/license_plate'' '''',
                  SetInt ''parking_spots/slot_0/entry_time'' 0])"
    by (auto simp: decided_def issued_def loop_slot_requests split: option.splits if_splits)
  from flip show "previousOccupied (fst (loop_slot millis capture (s, fb))) = nowOccupied"
    by (auto simp: decided_def loop_slot_previousOccupied split: option.splits if_splits)
qed

text \<open>
  A steady run of five passes with the slot held occupied (a poll that sees the car, a
  pass inside the check interval, a second poll, a poll without a response, a third
  poll), and a flip: a response that cannot be parsed counts as "no vehicle".
\<close>

theorem change_only_write_witness:
  "steady [(15000, Some car_seen), (15100, Some (Json [])), (30000, Some car_seen),
           (45000, Some Empty), (60000, Some car_seen)] (tracking_occupied, ledger_two_free)
   \<and> filter ledger_write (issued ledger_two_free (snd (run_slot
         [(15000, Some car_seen), (15100, Some (Json [])), (30000, Some car_seen),
          (45000, Some Empty), (60000, Some car_seen)] (tracking_occupied, ledger_two_free)))) = []
   \<and> decided 15000 (Some Malformed) tracking_occupied = Some False
   \<and> False \<noteq> previousOccupied tracking_occupied
   \<and> filter ledger_write
        (issued ledger_two_free (snd (loop_slot 15000 (Some Malformed) (tracking_occupied, ledger_two_free))))
      = [SetBool ''parking_spots/slot_0/occupied'' False,
         SetString ''parking_spots/slot_0/vehicle_type'' '''',
         SetString ''parking_spots/slot_0/license_plate'' '''',
         SetInt ''parking_spots/slot_0/entry_time'' 0]
   \<and> previousOccupied (fst (loop_slot 15000 (Some Malformed) (tracking_occupied, ledger_two_free)))
      = False"
proof -
  have quiet: "steady [(15000, Some car_seen), (15100, Some (Json [])), (30000, Some car_seen),
           (45000, Some Empty), (60000, Some car_seen)] (tracking_occupied, ledger_two_free)"
    by code_simp
  have flip: "decided 15000 (Some Malformed) tracking_occupied = Some False
       \<and> False \<noteq> previousOccupied tracking_occupied"
    by (simp add: decided_def tracking_occupied_def CHECK_INTERVAL_MS_def)
  from change_only_write [of "[(15000, Some car_seen), (15100, Some (Json [])),
          (30000, Some car_seen), (45000, Some Empty), (60000, Some car_seen)]"
          tracking_occupied ledger_two_free 15000 "Some Malformed" False] quiet flip
  show ?thesis
    by simp
qed

text \<open>
  C10 (cold-start default). If the read of the slot's \<open>occupied\<close> field in \<open>setup\<close>
  fails, \<open>previousOccupied\<close> keeps its initial value false. After \<open>setup\<close> no pass of
  \<open>loop\<close> reads the store: started from the same globals, two runs over the same passes
  end with the same globals and issue the same requests whatever the two stores hold.
\<close>

theorem cold_start_default:
  "(getBool fb ''parking_spots/slot_0/occupied'' = None
      \<longrightarrow> previousOccupied (fst (setup_slot ip fb)) = False)
   \<and> fst (run_slot passes (s, fb)) = fst (run_slot passes (s, fb'))
   \<and> issued fb (snd (run_slot passes (s, fb))) = issued fb' (snd (run_slot passes (s, fb')))"
proof (intro conjI impI)
  assume "getBool fb ''parking_spots/slot_0/occupied'' = None"
  then have "getBool (initFirebase_slot ip fb) (slotPath SLOT_ID @ ''/occupied'') = None"
    by (simp add: getBool_def initFirebase_slot_def Let_def setString_def
          CAMERA_ID_slot_def slotPath_SLOT_ID)
  then show "previousOccupied (fst (setup_slot ip fb)) = False"
    by (simp add: setup_slot_def Let_def slot_globals_def)
next
  show "fst (run_slot passes (s, fb)) = fst (run_slot passes (s, fb'))"
    by (rule run_slot_state)
next
  from run_slot_requests [of passes s]
  obtain ws where "\<And>fb. requests (snd (run_slot passes (s, fb))) = requests fb @ ws"
    by blast
  then show "issued fb (snd (run_slot passes (s, fb))) = issued fb' (snd (run_slot passes (s, fb')))"
    by (simp add: issued_def)
qed

theorem cold_start_default_witness:
  "getBool (store_of []) ''parking_spots/slot_0/occupied'' = None
   \<and> previousOccupied (fst (setup_slot ''192.168.1.20'' (store_of []))) = False"
proof -
  have absent: "getBool (store_of []) ''parking_spots/slot_0/occupied'' = None"
    by (simp add: eval_read)
  from cold_start_default [of "store_of []" "''192.168.1.20''"] absent
  show ?thesis
    by simp
qed

section \<open>Properties of the Detection Interpreter\<close>

lemma parsePredictions_append:
  "parsePredictions (xs @ ys) (vt, lp, c) = parsePredictions ys (parsePredictions xs (vt, lp, c))"
  by (induction xs arbitrary: vt lp c) (simp_all add: Let_def)

text \<open>
  Whatever the loop leaves in \<open>vehicleType\<close> and \<open>confidence\<close> is either what it was
  given or the class and the confidence of one vehicle candidate of the list, of a
  confidence above the one given.
\<close>

lemma parsePredictions_source:
  assumes "parsePredictions ps (vt, lp, c) = (vt', lp', c')"
  shows "(vt' = vt \<and> c' = c)
    \<or> (\<exists>p\<in>set ps. vehicle_candidate p \<and> pred_class p = vt' \<and> pred_confidence p = c' \<and> c < c')"
  using assms
proof (induction ps arbitrary: vt lp c)
  case Nil
  then show ?case by simp
next
  case (Cons x xs)
  let ?lp = "if pred_class x = ''license_plate'' \<and> pred_confidence x > 0.5
             then ''PLATE_DETECTED'' else lp"
  show ?case
  proof (cases "vehicle_candidate x \<and> pred_confidence x > c")
    case True
    with Cons.prems have "parsePredictions xs (pred_class x, ?lp, pred_confidence x) = (vt', lp', c')"
      by (simp add: Let_def vehicle_candidate_def)
    from Cons.IH [OF this] True show ?thesis
      by auto
  next
    case False
    with Cons.prems have "parsePredictions xs (vt, ?lp, c) = (vt', lp', c')"
      by (auto simp: Let_def vehicle_candidate_def)
    from Cons.IH [OF this] show ?thesis
      by auto
  qed
qed

lemma parsePredictions_below:
  assumes "c < m" and "\<forall>q\<in>set xs. vehicle_candidate q \<longrightarrow> pred_confidence q < m"
  shows "\<exists>vt' lp' c'. parsePredictions xs (vt, lp, c) = (vt', lp', c') \<and> c' < m"
proof -
  obtain vt' lp' c' where result: "parsePredictions xs (vt, lp, c) = (vt', lp', c')"
    by (cases "parsePredictions xs (vt, lp, c)")
  from parsePredictions_source [OF result] assms have "c' < m"
    by auto
  with result show ?thesis
    by simp
qed

lemma parsePredictions_keep:
  assumes "\<forall>q\<in>set xs. vehicle_candidate q \<longrightarrow> pred_confidence q \<le> c"
  shows "\<exists>lp'. parsePredictions xs (vt, lp, c) = (vt, lp', c)"
proof -
  obtain vt' lp' c' where result: "parsePredictions xs (vt, lp, c) = (vt', lp', c')"
    by (cases "parsePredictions xs (vt, lp, c)")
  from parsePredictions_source [OF result] assms have "vt' = vt \<and> c' = c"
    by force
  with result show ?thesis
    by simp
qed

text \<open>
  C3 (confidence floor). The confidence floor is applied by \<open>loop\<close> to what
  \<open>parseRoboflowResponse\<close> returns; \<open>detection\<close> is the two together. Every detection it
  lets through carries the class and the confidence of a vehicle candidate of the
  prediction list whose confidence is at least the threshold, so a candidate strictly
  below the threshold never yields one; and when every vehicle candidate of the list is
  strictly below the threshold, there is no detection.
\<close>

theorem confidence_floor:
  "(detection jsonResponse = Some (vehicleType, licensePlate, bestConfidence)
      \<longrightarrow> (\<exists>predictions. jsonResponse = Json predictions
            \<and> (\<exists>pred\<in>set predictions. vehicle_candidate pred
                  \<and> pred_class pred = vehicleType \<and> pred_confidence pred = bestConfidence
                  \<and> CONFIDENCE_THRESHOLD_entrance \<le> pred_confidence pred)))
   \<and> ((\<forall>pred\<in>set candidates. vehicle_candidate pred
          \<longrightarrow> pred_confidence pred < CONFIDENCE_THRESHOLD_entrance)
      \<longrightarrow> detection (Json candidates) = None)"
proof -
  have accepted: "\<exists>pred\<in>set ps. vehicle_candidate pred
        \<and> pred_class pred = vt \<and> pred_confidence pred = c
        \<and> CONFIDENCE_THRESHOLD_entrance \<le> pred_confidence pred"
    if "detection (Json ps) = Some (vt, lp, c)" for ps vt lp c
  proof -
    obtain vt' lp' c' where result: "parsePredictions ps ('''', '''', 0) = (vt', lp', c')"
      by (cases "parsePredictions ps ('''', '''', 0)")
    with that have gate: "vt' \<noteq> ''''" "CONFIDENCE_THRESHOLD_entrance \<le> c'" "vt' = vt" "c' = c"
      by (auto simp: detection_def split: if_splits)
    from parsePredictions_source [OF result] gate show ?thesis
      by auto
  qed
  have first: "detection jsonResponse = Some (vehicleType, licensePlate, bestConfidence)
      \<longrightarrow> (\<exists>predictions. jsonResponse = Json predictions
            \<and> (\<exists>pred\<in>set predictions. vehicle_candidate pred
                  \<and> pred_class pred = vehicleType \<and> pred_confidence pred = bestConfidence
                  \<and> CONFIDENCE_THRESHOLD_entrance \<le> pred_confidence pred))"
  proof (cases jsonResponse)
    case (Json ps)
    with accepted [of ps vehicleType licensePlate bestConfidence] show ?thesis
      by blast
  qed (simp_all add: detection_def)
  have second: "detection (Json candidates) = None"
    if below: "\<forall>pred\<in>set candidates. vehicle_candidate pred
          \<longrightarrow> pred_confidence pred < CONFIDENCE_THRESHOLD_entrance"
  proof (cases "detection (Json candidates)")
    case None
    then show ?thesis .
  next
    case (Some d)
    obtain vt lp c where "d = (vt, lp, c)"
      by (cases d)
    with Some accepted [of candidates vt lp c] below show ?thesis
      by force
  qed
  from first second show ?thesis
    by blast
qed

theorem confidence_floor_witness:
  "detection (Json [\<lparr>pred_class = ''truck'', pred_confidence = 3 / 10\<rparr>,
                    \<lparr>pred_class = ''license_plate'', pred_confidence = 7 / 10\<rparr>,
                    \<lparr>pred_class = ''car'', pred_confidence = 8 / 10\<rparr>])
     = Some (''car'', ''PLATE_DETECTED'', 8 / 10)
   \<and> vehicle_candidate \<lparr>pred_class = ''car'', pred_confidence = 8 / 10\<rparr>
   \<and> CONFIDENCE_THRESHOLD_entrance \<le> 8 / 10
   \<and> detection (Json [\<lparr>pred_class = ''car'', pred_confidence = 5 / 10\<rparr>,
                      \<lparr>pred_class = ''truck'', pred_confidence = 54 / 100\<rparr>]) = None"
proof -
  have accepted: "detection (Json [\<lparr>pred_class = ''truck'', pred_confidence = 3 / 10\<rparr>,
                    \<lparr>pred_class = ''license_plate'', pred_confidence = 7 / 10\<rparr>,
                    \<lparr>pred_class = ''car'', pred_confidence = 8 / 10\<rparr>])
     = Some (''car'', ''PLATE_DETECTED'', 8 / 10)"
    by (simp add: detection_def Let_def CONFIDENCE_THRESHOLD_entrance_def)
  have below: "\<forall>pred\<in>set [\<lparr>pred_class = ''car'', pred_confidence = 5 / 10\<rparr>,
                    \<lparr>pred_class = ''truck'', pred_confidence = 54 / 100\<rparr>].
         vehicle_candidate pred \<longrightarrow> pred_confidence pred < CONFIDENCE_THRESHOLD_entrance"
    by (simp add: CONFIDENCE_THRESHOLD_entrance_def)
  from confidence_floor
    [of "Json [\<lparr>pred_class = ''truck'', pred_confidence = 3 / 10\<rparr>,
               \<lparr>pred_class = ''license_plate'', pred_confidence = 7 / 10\<rparr>,
               \<lparr>pred_class = ''car'', pred_confidence = 8 / 10\<rparr>]"
        "''car''" "''PLATE_DETECTED''" "8 / 10"
        "[\<lparr>pred_class = ''car'', pred_confidence = 5 / 10\<rparr>,
          \<lparr>pred_class = ''truck'', pred_confidence = 54 / 100\<rparr>]"]
    accepted below
  show ?thesis
    by (simp add: vehicle_candidate_def CONFIDENCE_THRESHOLD_entrance_def)
qed

text \<open>
  In \<open>loop\<close> the check-in is reached through \<open>detection\<close> only: a pass without a
  detection writes nothing to the slot ledger and does not restart the cooldown.
\<close>

lemma loop_entrance_without_detection:
  assumes "detection jsonResponse = None"
  shows "filter ledger_write (issued fb (snd (loop_entrance millis (Some jsonResponse) (s, fb)))) = []"
    and "lastDetectionTime (fst (loop_entrance millis (Some jsonResponse) (s, fb)))
          = lastDetectionTime s"
  using assms
  by (auto simp: loop_entrance_def sendHeartbeat_def Let_def write_defs issued_def
        ledger_write_def CAMERA_ID_entrance_def)

text \<open>
  C4 (tie-break determinism). The claim fails as stated when the equal maximal confidence
  is not above 0, the value \<open>bestConfidence\<close> starts from: with a car and a truck both of
  confidence 0 the strict comparison \<open>conf > confidence\<close> never holds, \<open>vehicleType\<close>
  stays empty and no candidate is selected, the first one included.
\<close>

theorem tie_break_counterexample:
  "vehicle_candidate \<lparr>pred_class = ''car'', pred_confidence = 0\<rparr>
   \<and> vehicle_candidate \<lparr>pred_class = ''truck'', pred_confidence = 0\<rparr>
   \<and> parseRoboflowResponse
        (Json [\<lparr>pred_class = ''car'', pred_confidence = 0\<rparr>,
               \<lparr>pred_class = ''truck'', pred_confidence = 0\<rparr>]) ('''', '''', 0)
      = ('''', '''', 0)
   \<and> detection (Json [\<lparr>pred_class = ''car'', pred_confidence = 0\<rparr>,
                      \<lparr>pred_class = ''truck'', pred_confidence = 0\<rparr>]) = None"
  by (simp add: vehicle_candidate_def detection_def Let_def)

text \<open>
  C4 as amended. Let \<open>pred\<close> be a vehicle candidate of confidence above 0 such that every
  vehicle candidate before it in the list has a strictly smaller confidence and every one
  after it has a smaller or equal confidence: \<open>pred\<close> is the first candidate of maximal
  confidence. Then \<open>parseRoboflowResponse\<close> returns the class and the confidence of
  \<open>pred\<close>, and \<open>loop\<close> takes them as the detection exactly when that confidence reaches
  the threshold.
\<close>

theorem tie_break_first_wins:
  assumes "vehicle_candidate pred" and "0 < pred_confidence pred"
    and "\<forall>q\<in>set before. vehicle_candidate q \<longrightarrow> pred_confidence q < pred_confidence pred"
    and "\<forall>q\<in>set after. vehicle_candidate q \<longrightarrow> pred_confidence q \<le> pred_confidence pred"
  shows "\<exists>licensePlate.
      parseRoboflowResponse (Json (before @ pred # after)) ('''', '''', 0)
        = (pred_class pred, licensePlate, pred_confidence pred)
      \<and> detection (Json (before @ pred # after))
        = (if CONFIDENCE_THRESHOLD_entrance \<le> pred_confidence pred
           then Some (pred_class pred, licensePlate, pred_confidence pred) else None)"
proof -
  from parsePredictions_below [OF assms(2,3)]
  obtain vt1 lp1 c1 where pre: "parsePredictions before ('''', '''', 0) = (vt1, lp1, c1)"
      and less: "c1 < pred_confidence pred"
    by blast
  let ?lp2 = "if pred_class pred = ''license_plate'' \<and> pred_confidence pred > 0.5
              then ''PLATE_DETECTED'' else lp1"
  from parsePredictions_keep [OF assms(4), of "pred_class pred" ?lp2]
  obtain lp3 where post: "parsePredictions after (pred_class pred, ?lp2, pred_confidence pred)
      = (pred_class pred, lp3, pred_confidence pred)"
    by blast
  from assms(1) less
  have step: "parsePredictions (pred # after) (vt1, lp1, c1) =
      parsePredictions after (pred_class pred, ?lp2, pred_confidence pred)"
    by (simp add: Let_def vehicle_candidate_def)
  have parsed: "parseRoboflowResponse (Json (before @ pred # after)) ('''', '''', 0)
      = (pred_class pred, lp3, pred_confidence pred)"
    by (simp only: parseRoboflowResponse.simps parsePredictions_append pre step post)
  from assms(1) have named: "pred_class pred \<noteq> ''''"
    by (auto simp: vehicle_candidate_def)
  from parsed named have "detection (Json (before @ pred # after))
        = (if CONFIDENCE_THRESHOLD_entrance \<le> pred_confidence pred
           then Some (pred_class pred, lp3, pred_confidence pred) else None)"
    by (simp add: detection_def del: parseRoboflowResponse.simps)
  with parsed show ?thesis
    by blast
qed

theorem tie_break_first_wins_witness:
  "vehicle_candidate \<lparr>pred_class = ''truck'', pred_confidence = 8 / 10\<rparr>
   \<and> parseRoboflowResponse
        (Json ([\<lparr>pred_class = ''license_plate'', pred_confidence = 9 / 10\<rparr>,
                \<lparr>pred_class = ''car'', pred_confidence = 6 / 10\<rparr>]
               @ \<lparr>pred_class = ''truck'', pred_confidence = 8 / 10\<rparr>
               # [\<lparr>pred_class = ''car'', pred_confidence = 8 / 10\<rparr>,
                  \<lparr>pred_class = ''motorcycle'', pred_confidence = 7 / 10\<rparr>])) ('''', '''', 0)
      = (''truck'', ''PLATE_DETECTED'', 8 / 10)
   \<and> (\<exists>licensePlate. detection
        (Json ([\<lparr>pred_class = ''license_plate'', pred_confidence = 9 / 10\<rparr>,
                \<lparr>pred_class = ''car'', pred_confidence = 6 / 10\<rparr>]
               @ \<lparr>pred_class = ''truck'', pred_confidence = 8 / 10\<rparr>
               # [\<lparr>pred_class = ''car'', pred_confidence = 8 / 10\<rparr>,
                  \<lparr>pred_class = ''motorcycle'', pred_confidence = 7 / 10\<rparr>]))
      = Some (''truck'', licensePlate, 8 / 10))"
proof -
  have candidate: "vehicle_candidate \<lparr>pred_class = ''truck'', pred_confidence = 8 / 10\<rparr>"
    by (simp add: vehicle_candidate_def)
  have positive: "0 < pred_confidence \<lparr>pred_class = ''truck'', pred_confidence = 8 / 10\<rparr>"
    by simp
  have before: "\<forall>q\<in>set [\<lparr>pred_class = ''license_plate'', pred_confidence = 9 / 10\<rparr>,
                          \<lparr>pred_class = ''car'', pred_confidence = 6 / 10\<rparr>].
      vehicle_candidate q
      \<longrightarrow> pred_confidence q < pred_confidence \<lparr>pred_class = ''truck'', pred_confidence = 8 / 10\<rparr>"
    by (simp add: vehicle_candidate_def)
  have after: "\<forall>q\<in>set [\<lparr>pred_class = ''car'', pred_confidence = 8 / 10\<rparr>,
                         \<lparr>pred_class = ''motorcycle'', pred_confidence = 7 / 10\<rparr>].
      vehicle_candidate q
      \<longrightarrow> pred_confidence q \<le> pred_confidence \<lparr>pred_class = ''truck'', pred_confidence = 8 / 10\<rparr>"
    by (simp add: vehicle_candidate_def)
  have parsed: "parseRoboflowResponse
        (Json ([\<lparr>pred_class = ''license_plate'', pred_confidence = 9 / 10\<rparr>,
                \<lparr>pred_class = ''car'', pred_confidence = 6 / 10\<rparr>]
               @ \<lparr>pred_class = ''truck'', pred_confidence = 8 / 10\<rparr>
               # [\<lparr>pred_class = ''car'', pred_confidence = 8 / 10\<rparr>,
                  \<lparr>pred_class = ''motorcycle'', pred_confidence = 7 / 10\<rparr>])) ('''', '''', 0)
      = (''truck'', ''PLATE_DETECTED'', 8 / 10)"
    by (simp add: Let_def)
  from tie_break_first_wins [OF candidate positive before after] candidate parsed
  show ?thesis
    by (auto simp: CONFIDENCE_THRESHOLD_entrance_def)
qed

end
